theory Spec2Isabelle
  imports Main
begin

section \<open>Data model\<close>

text \<open>
  JavaScript values that may be \<^verbatim>\<open>undefined\<close> or \<^verbatim>\<open>null\<close> are options: \<open>None\<close> stands for
  both, since the code only tests them with \<^verbatim>\<open>!\<close>, \<^verbatim>\<open>||\<close>, \<^verbatim>\<open>??\<close> and \<^verbatim>\<open>?.\<close>, which treat the two
  alike.
\<close>

datatype js_error = TypeError

text \<open>
  A property read \<^verbatim>\<open>obj[key]\<close> on a plain object literal looks the key up among the object's
  own properties and then along its prototype chain, which for \<^verbatim>\<open>{}\<close> is
  \<^verbatim>\<open>Object.prototype\<close>. The members of \<^verbatim>\<open>Object.prototype\<close> (ECMAScript, Annex B included; the
  prototype is taken as the engine provides it) are functions, and for \<^verbatim>\<open>__proto__\<close> the
  prototype object itself: none of them is \<^verbatim>\<open>undefined\<close> or \<^verbatim>\<open>null\<close>, and none is a string.
  So the value read is a string stored in the object, or an inherited member, named here by
  its key.
\<close>

datatype js_value = JsString string | PrototypeMember string

definition objectPrototypeMembers :: "string list" where
  "objectPrototypeMembers =
     [''constructor'', ''hasOwnProperty'', ''isPrototypeOf'', ''propertyIsEnumerable'',
      ''toLocaleString'', ''toString'', ''valueOf'', ''__proto__'',
      ''__defineGetter__'', ''__defineSetter__'', ''__lookupGetter__'', ''__lookupSetter__'']"

text \<open>\<^verbatim>\<open>obj[key]\<close> for a plain object whose own properties are \<open>own\<close>; \<open>None\<close> is \<^verbatim>\<open>undefined\<close>.\<close>

definition getProperty :: "(string \<rightharpoonup> string) \<Rightarrow> string \<Rightarrow> js_value option" where
  "getProperty own key =
     (case own key of
        Some v \<Rightarrow> Some (JsString v)
      | None \<Rightarrow> if key \<in> set objectPrototypeMembers then Some (PrototypeMember key) else None)"

text \<open>\<^verbatim>\<open>EthAddressBookLocation = 'global' | 'private'\<close>\<close>

datatype EthAddressBookLocation = Global | Private

text \<open>
  Modelled from the spec: the types \<^verbatim>\<open>EthNamesEntry\<close>, \<^verbatim>\<open>AssetCollection\<close> and \<^verbatim>\<open>AssetInfo\<close> are
  imported by the sources and declared elsewhere. The spec gives an entry as
  \<^verbatim>\<open>{ address, name }\<close>, a collection override as name and symbol, and the asset record as
  \<^verbatim>\<open>{ identifier, name?, symbol?, isCustomAsset, customAssetType?, collectionId?, assetType? }\<close>.
  Every field of the asset record and of the collection is optional here, so that raw
  metadata lacking a field, and the spread of a \<^verbatim>\<open>null\<close> record, are values of the type.
\<close>

record EthNamesEntry =
  address :: string
  name :: string

record AssetCollection =
  name :: "string option"
  symbol :: "string option"

record AssetInfo =
  "identifier" :: "string option"
  name :: "string option"
  symbol :: "string option"
  isCustomAsset :: "bool option"
  customAssetType :: "string option"
  collectionId :: "string option"
  assetType :: "string option"

text \<open>The object \<^verbatim>\<open>{ ...null }\<close>: no field is set.\<close>

definition emptyAssetInfo :: AssetInfo where
  "emptyAssetInfo =
     \<lparr> identifier = None, name = None, symbol = None, isCustomAsset = None,
       customAssetType = None, collectionId = None, assetType = None \<rparr>"

text \<open>
  Truthiness of a nullable string: \<^verbatim>\<open>undefined\<close>, \<^verbatim>\<open>null\<close> and \<^verbatim>\<open>''\<close> are falsy. \<open>js_or a b\<close> is
  \<^verbatim>\<open>a || b\<close> on such values.
\<close>

definition truthy :: "string option \<Rightarrow> bool" where
  "truthy v = (case v of None \<Rightarrow> False | Some s \<Rightarrow> s \<noteq> [])"

definition js_or :: "string option \<Rightarrow> string option \<Rightarrow> string option" where
  "js_or a b = (if truthy a then a else b)"

section \<open>Asset info retrieval\<close>

text \<open>
  What \<^verbatim>\<open>useAssetInfoRetrieval\<close> reads from other modules: the general setting
  \<^verbatim>\<open>treatEth2AsEth\<close>, the asset cache store (\<^verbatim>\<open>isPending\<close>, \<^verbatim>\<open>retrieve\<close>,
  \<^verbatim>\<open>fetchedAssetCollections\<close>), the identifier utilities \<^verbatim>\<open>isEvmIdentifier\<close> and
  \<^verbatim>\<open>getAddressFromEvmIdentifier\<close>, and the constant \<^verbatim>\<open>CUSTOM_ASSET\<close>. None of them is defined
  in the sources at hand, so they are parameters: every theorem below holds for any choice
  of them. \<^verbatim>\<open>retrieve\<close> is applied to whatever value the key expression yields, and
  \<^verbatim>\<open>fetchedAssetCollections\<close> stands for the read \<^verbatim>\<open>get(fetchedAssetCollections)[id]\<close> as a
  whole. The cache's own side effect of \<^verbatim>\<open>retrieve\<close> (queueing a fetch on a miss) happens
  inside the cache and is not part of this model.
\<close>

record asset_env =
  treatEth2AsEth :: bool
  isPending :: "string \<Rightarrow> bool"
  retrieve :: "js_value \<Rightarrow> AssetInfo option"
  fetchedAssetCollections :: "string \<rightharpoonup> AssetCollection"
  isEvmIdentifier :: "string \<Rightarrow> bool"
  getAddressFromEvmIdentifier :: "string \<Rightarrow> string"
  CUSTOM_ASSET :: string

text \<open>
  The own properties of the object that the computed \<^verbatim>\<open>assetAssociationMap\<close> builds from
  \<^verbatim>\<open>{}\<close>, and \<^verbatim>\<open>get(assetAssociationMap)[identifier] ?? identifier\<close>. The declared result type
  is \<^verbatim>\<open>string\<close>; the value is not one when the read yields an inherited member.
\<close>

definition assetAssociationMap :: "bool \<Rightarrow> (string \<rightharpoonup> string)" where
  "assetAssociationMap treat =
     (if treat then Map.empty(''ETH2'' \<mapsto> ''ETH'') else Map.empty)"

definition getAssociatedAssetIdentifier :: "bool \<Rightarrow> string \<Rightarrow> js_value" where
  "getAssociatedAssetIdentifier treat ident =
     (case getProperty (assetAssociationMap treat) ident of
        Some v \<Rightarrow> v
      | None \<Rightarrow> JsString ident)"

definition getAssetNameFallback :: "asset_env \<Rightarrow> string \<Rightarrow> string" where
  "getAssetNameFallback env ident =
     (if isEvmIdentifier env ident
      then ''EVM Token: '' @ getAddressFromEvmIdentifier env ident
      else [])"

text \<open>
  \<^verbatim>\<open>data?.isCustomAsset || data?.assetType === CUSTOM_ASSET\<close>: a boolean whenever the flag,
  if set, is a boolean.
\<close>

definition isCustomAssetOf :: "asset_env \<Rightarrow> AssetInfo option \<Rightarrow> bool" where
  "isCustomAssetOf env data =
     (case data of
        None \<Rightarrow> False
      | Some d \<Rightarrow> isCustomAsset d = Some True \<or> assetType d = Some (CUSTOM_ASSET env))"

text \<open>
  \<^verbatim>\<open>get(isCollectionParent) && data?.collectionId ? get(fetchedAssetCollections)[data.collectionId] : null\<close>
\<close>

definition collectionDataOf ::
  "asset_env \<Rightarrow> bool \<Rightarrow> AssetInfo option \<Rightarrow> AssetCollection option" where
  "collectionDataOf env isCollectionParent data =
     (case data of
        None \<Rightarrow> None
      | Some d \<Rightarrow>
          (case collectionId d of
             None \<Rightarrow> None
           | Some c \<Rightarrow>
               if isCollectionParent \<and> c \<noteq> [] then fetchedAssetCollections env c
               else None))"

text \<open>
  \<^verbatim>\<open>get(enableAssociation) ? get(getAssociatedAssetIdentifier(id)) : id\<close>, the cache key
  of \<^verbatim>\<open>assetInfo\<close> (and of \<^verbatim>\<open>tokenAddress\<close>).
\<close>

definition canonicalKey :: "asset_env \<Rightarrow> bool \<Rightarrow> string \<Rightarrow> js_value" where
  "canonicalKey env enableAssociation i =
     (if enableAssociation then getAssociatedAssetIdentifier (treatEth2AsEth env) i
      else JsString i)"

text \<open>
  The body of the computed of \<^verbatim>\<open>assetInfo\<close>. \<open>Inl TypeError\<close> is the property read
  \<^verbatim>\<open>data.name\<close> on a \<^verbatim>\<open>null\<close> record in the custom-asset branch.
\<close>

definition assetInfo ::
  "asset_env \<Rightarrow> string option \<Rightarrow> bool \<Rightarrow> bool \<Rightarrow> js_error + AssetInfo option" where
  "assetInfo env ident enableAssociation isCollectionParent =
     (case ident of
        None \<Rightarrow> Inr None
      | Some i \<Rightarrow>
          if i = [] then Inr None
          else if isPending env i then Inr None
          else
            let key = canonicalKey env enableAssociation i;
                data = retrieve env key;
                isCustom = isCustomAssetOf env data
            in if isCustom
               then (case data of
                       None \<Rightarrow> Inl TypeError
                     | Some d \<Rightarrow>
                         Inr (Some (d\<lparr> symbol := AssetInfo.name d, isCustomAsset := Some True \<rparr>)))
               else
                 let collectionData = collectionDataOf env isCollectionParent data;
                     base = (case data of None \<Rightarrow> emptyAssetInfo | Some d \<Rightarrow> d);
                     nm = js_or (case collectionData of None \<Rightarrow> None
                                   | Some c \<Rightarrow> AssetCollection.name c)
                            (js_or (AssetInfo.name base)
                               (Some (getAssetNameFallback env i)));
                     sym = js_or (case collectionData of None \<Rightarrow> None
                                    | Some c \<Rightarrow> AssetCollection.symbol c)
                             (js_or (AssetInfo.symbol base)
                                (Some (getAssetNameFallback env i)))
                 in Inr (Some (base\<lparr> isCustomAsset := Some False, name := nm, symbol := sym \<rparr>)))"

text \<open>
  A concrete environment for evaluating the resolver: the setting is enabled, two keys are
  in flight, the cache holds an ordinary token that belongs to collection \<^verbatim>\<open>X\<close>, the
  metadata of \<^verbatim>\<open>ETH\<close> and a custom asset with a name and no symbol. The identifier utilities take the shape
  \<^verbatim>\<open>eip155:1/erc20:<address>\<close>.
\<close>

definition tokenA :: AssetInfo where
  "tokenA = emptyAssetInfo\<lparr> name := Some ''Token A'', symbol := Some ''TKA'',
                             collectionId := Some ''X'' \<rparr>"

definition ethMeta :: AssetInfo where
  "ethMeta = emptyAssetInfo\<lparr> name := Some ''Ethereum'', symbol := Some ''ETH'' \<rparr>"

definition myCollectible :: AssetInfo where
  "myCollectible = emptyAssetInfo\<lparr> name := Some ''My Collectible'',
                                    isCustomAsset := Some True \<rparr>"

definition ex_cache :: "string \<rightharpoonup> AssetInfo" where
  "ex_cache = [''TOKENA'' \<mapsto> tokenA, ''ETH'' \<mapsto> ethMeta, ''NFT'' \<mapsto> myCollectible]"

fun ex_retrieve :: "js_value \<Rightarrow> AssetInfo option" where
  "ex_retrieve (JsString key) = ex_cache key"
| "ex_retrieve (PrototypeMember _) = None"

definition ex_env :: asset_env where
  "ex_env =
     \<lparr> treatEth2AsEth = True,
       isPending = (\<lambda>k. k = ''ETH'' \<or> k = ''LOADING''),
       retrieve = ex_retrieve,
       fetchedAssetCollections =
         [''X'' \<mapsto> \<lparr> AssetCollection.name = Some ''Collection A'',
                     AssetCollection.symbol = None \<rparr>],
       isEvmIdentifier = (\<lambda>s. take 7 s = ''eip155:''),
       getAddressFromEvmIdentifier = drop 15,
       CUSTOM_ASSET = ''custom asset'' \<rparr>"

section \<open>Ethereum name store\<close>

text \<open>
  Modelled from the spec: \<^verbatim>\<open>uniqueStrings\<close> (imported from the data utilities) is not among
  the sources. The spec calls the merged lists deduplicated and promises that a repeated call
  with already-known addresses leaves the worklist as it is, so the occurrence kept is the
  first one: as an \<^verbatim>\<open>Array.prototype.filter\<close> callback, \<^verbatim>\<open>uniqueStrings(value, index, array)\<close>
  holds when \<^verbatim>\<open>array.indexOf(value)\<close> is \<^verbatim>\<open>index\<close>.
\<close>

definition indexOf :: "'a list \<Rightarrow> 'a \<Rightarrow> int" where
  "indexOf arr v =
     (if v \<in> set arr then int (length (takeWhile (\<lambda>x. x \<noteq> v) arr)) else - 1)"

definition uniqueStrings :: "string \<Rightarrow> nat \<Rightarrow> string list \<Rightarrow> bool" where
  "uniqueStrings v idx arr = (indexOf arr v = int idx)"

text \<open>\<^verbatim>\<open>array.filter(callback)\<close>, the callback receiving value, index and the array.\<close>

definition filterIndexed :: "('a \<Rightarrow> nat \<Rightarrow> 'a list \<Rightarrow> bool) \<Rightarrow> 'a list \<Rightarrow> 'a list" where
  "filterIndexed p xs =
     map fst (filter (\<lambda>(v, idx). p v idx xs) (zip xs [0..<length xs]))"

text \<open>The four refs of the store.\<close>

record ethNamesState =
  ensAddresses :: "string list"
  ethNames :: "string \<rightharpoonup> string"
  ethAddressBookGlobal :: "EthNamesEntry list"
  ethAddressBookPrivate :: "EthNamesEntry list"

definition initialState :: ethNamesState where
  "initialState =
     \<lparr> ensAddresses = [], ethNames = Map.empty,
       ethAddressBookGlobal = [], ethAddressBookPrivate = [] \<rparr>"

text \<open>
  The backend as the store sees it: the functions of \<^verbatim>\<open>useEthNamesApi\<close> and \<^verbatim>\<open>awaitTask\<close> of
  the task store. A call answers with a value or rejects; a rejection is \<open>Inl\<close> of the error's
  message. The answers are parameters of every operation.
\<close>

record ethNamesApi =
  getEnsNames :: "string list \<Rightarrow> string + (string \<rightharpoonup> string)"
  getEnsNamesTask :: "string list \<Rightarrow> string + nat"
  awaitTask :: "nat \<Rightarrow> string + unit"
  getEthNames :: "string list \<Rightarrow> string + (string \<rightharpoonup> string)"
  getEthAddressBook ::
    "EthAddressBookLocation \<Rightarrow> string list option \<Rightarrow> string + EthNamesEntry list"
  addAddressBook :: "EthAddressBookLocation \<Rightarrow> EthNamesEntry list \<Rightarrow> string + bool"
  updateAddressBook :: "EthAddressBookLocation \<Rightarrow> EthNamesEntry list \<Rightarrow> string + bool"
  deleteAddressBook :: "EthAddressBookLocation \<Rightarrow> string list \<Rightarrow> string + bool"

text \<open>
  What an operation does besides changing the refs, in order: the requests it sends, the
  errors it logs and the notifications it raises (title key and message).
\<close>

datatype request =
    GetEnsNames "string list"
  | GetEnsNamesTask "string list"
  | AwaitTask nat
  | GetEthNames "string list"
  | GetEthAddressBook EthAddressBookLocation "string list option"
  | AddAddressBook EthAddressBookLocation "EthNamesEntry list"
  | UpdateAddressBook EthAddressBookLocation "EthNamesEntry list"
  | DeleteAddressBook EthAddressBookLocation "string list"

datatype effect = Request request | LogError string | Notify string string

definition updateEnsAddresses ::
  "(string \<Rightarrow> bool) \<Rightarrow> string list \<Rightarrow> ethNamesState \<Rightarrow> bool \<times> ethNamesState" where
  "updateEnsAddresses isValidEthAddress newAddresses s =
     (let newEnsAddresses =
            filter isValidEthAddress
              (filterIndexed uniqueStrings (ensAddresses s @ newAddresses));
          currentEnsAddresses = ensAddresses s;
          changed = (newEnsAddresses \<noteq> currentEnsAddresses)
      in (changed, if changed then s\<lparr> ensAddresses := newEnsAddresses \<rparr> else s))"

definition fetchEthNames :: "ethNamesApi \<Rightarrow> ethNamesState \<Rightarrow> effect list \<times> ethNamesState" where
  "fetchEthNames api s =
     (let addresses =
            filterIndexed uniqueStrings
              (map address (ethAddressBookGlobal s) @
               map address (ethAddressBookPrivate s) @
               ensAddresses s)
      in case getEthNames api addresses of
           Inr result \<Rightarrow> ([Request (GetEthNames addresses)], s\<lparr> ethNames := result \<rparr>)
         | Inl message \<Rightarrow>
             ([Request (GetEthNames addresses), LogError message,
               Notify ''eth_names.error.title'' message], s))"

text \<open>
  \<^verbatim>\<open>fetchEnsNames\<close> has no \<^verbatim>\<open>try\<close>: a rejection of the resolution call, or of the task, rejects
  the operation (\<open>Inl\<close>), after the worklist has been updated.
\<close>

definition fetchEnsNames ::
  "(string \<Rightarrow> bool) \<Rightarrow> ethNamesApi \<Rightarrow> string list \<Rightarrow> bool \<Rightarrow> ethNamesState
     \<Rightarrow> effect list \<times> (string + unit) \<times> ethNamesState" where
  "fetchEnsNames isValidEthAddress api addresses forceUpdate s =
     (if length addresses = 0 then ([], Inr (), s)
      else
        let (changed, s1) = updateEnsAddresses isValidEthAddress addresses s
        in if \<not> forceUpdate \<and> \<not> changed then ([], Inr (), s1)
           else
             let latestEnsAddresses = ensAddresses s1
             in if length latestEnsAddresses > 0
                then
                  if forceUpdate
                  then (case getEnsNamesTask api latestEnsAddresses of
                          Inl e \<Rightarrow> ([Request (GetEnsNamesTask latestEnsAddresses)], Inl e, s1)
                        | Inr taskId \<Rightarrow>
                            (case awaitTask api taskId of
                               Inl e \<Rightarrow>
                                 ([Request (GetEnsNamesTask latestEnsAddresses),
                                   Request (AwaitTask taskId)], Inl e, s1)
                             | Inr _ \<Rightarrow>
                                 let (ev, s2) = fetchEthNames api s1
                                 in (Request (GetEnsNamesTask latestEnsAddresses) #
                                     Request (AwaitTask taskId) # ev, Inr (), s2)))
                  else (case getEnsNames api latestEnsAddresses of
                          Inl e \<Rightarrow> ([Request (GetEnsNames latestEnsAddresses)], Inl e, s1)
                        | Inr _ \<Rightarrow>
                            let (ev, s2) = fetchEthNames api s1
                            in (Request (GetEnsNames latestEnsAddresses) # ev, Inr (), s2))
                else ([], Inr (), s1))"

definition updateEthAddressBookState ::
  "ethNamesApi \<Rightarrow> EthAddressBookLocation \<Rightarrow> EthNamesEntry list \<Rightarrow> ethNamesState
     \<Rightarrow> effect list \<times> ethNamesState" where
  "updateEthAddressBookState api location result s =
     fetchEthNames api
       (if location = Global then s\<lparr> ethAddressBookGlobal := result \<rparr>
        else s\<lparr> ethAddressBookPrivate := result \<rparr>)"

definition fetchEthAddressBook ::
  "ethNamesApi \<Rightarrow> EthAddressBookLocation \<Rightarrow> string list option \<Rightarrow> ethNamesState
     \<Rightarrow> effect list \<times> ethNamesState" where
  "fetchEthAddressBook api location addresses s =
     (case getEthAddressBook api location addresses of
        Inr result \<Rightarrow>
          let (ev, s1) = updateEthAddressBookState api location result s
          in (Request (GetEthAddressBook location addresses) # ev, s1)
      | Inl e \<Rightarrow>
          ([Request (GetEthAddressBook location addresses), LogError e,
            Notify ''eth_address_book.actions.fetch.error.title'' e], s))"

definition addEthAddressBook ::
  "ethNamesApi \<Rightarrow> EthAddressBookLocation \<Rightarrow> EthNamesEntry list \<Rightarrow> ethNamesState
     \<Rightarrow> effect list \<times> (string + unit) \<times> ethNamesState" where
  "addEthAddressBook api location entries s =
     (case addAddressBook api location entries of
        Inl e \<Rightarrow> ([Request (AddAddressBook location entries)], Inl e, s)
      | Inr result \<Rightarrow>
          if result
          then let (ev, s1) = fetchEthAddressBook api location None s
               in (Request (AddAddressBook location entries) # ev, Inr (), s1)
          else ([Request (AddAddressBook location entries)], Inr (), s))"

definition updateEthAddressBook ::
  "ethNamesApi \<Rightarrow> EthAddressBookLocation \<Rightarrow> EthNamesEntry list \<Rightarrow> ethNamesState
     \<Rightarrow> effect list \<times> (string + unit) \<times> ethNamesState" where
  "updateEthAddressBook api location entries s =
     (case updateAddressBook api location entries of
        Inl e \<Rightarrow> ([Request (UpdateAddressBook location entries)], Inl e, s)
      | Inr result \<Rightarrow>
          if result
          then let (ev, s1) = fetchEthAddressBook api location None s
               in (Request (UpdateAddressBook location entries) # ev, Inr (), s1)
          else ([Request (UpdateAddressBook location entries)], Inr (), s))"

definition deleteEthAddressBook ::
  "ethNamesApi \<Rightarrow> EthAddressBookLocation \<Rightarrow> string list \<Rightarrow> ethNamesState
     \<Rightarrow> effect list \<times> (string + unit) \<times> ethNamesState" where
  "deleteEthAddressBook api location addresses s =
     (case deleteAddressBook api location addresses of
        Inl e \<Rightarrow> ([Request (DeleteAddressBook location addresses)], Inl e, s)
      | Inr result \<Rightarrow>
          if result
          then let (ev, s1) = fetchEthAddressBook api location None s
               in (Request (DeleteAddressBook location addresses) # ev, Inr (), s1)
          else ([Request (DeleteAddressBook location addresses)], Inr (), s))"

text \<open>
  The asynchronous operations the store returns, and the state after a sequence of them,
  each with the backend's answers at that time.
\<close>

datatype storeOp =
    FetchEnsNames "string list" bool
  | FetchEthNames
  | FetchEthAddressBook EthAddressBookLocation "string list option"
  | AddEthAddressBook EthAddressBookLocation "EthNamesEntry list"
  | UpdateEthAddressBook EthAddressBookLocation "EthNamesEntry list"
  | DeleteEthAddressBook EthAddressBookLocation "string list"

fun perform ::
  "(string \<Rightarrow> bool) \<Rightarrow> ethNamesApi \<Rightarrow> storeOp \<Rightarrow> ethNamesState \<Rightarrow> effect list \<times> ethNamesState" where
  "perform v api (FetchEnsNames addresses forceUpdate) s =
     (case fetchEnsNames v api addresses forceUpdate s of (ev, _, s1) \<Rightarrow> (ev, s1))"
| "perform v api FetchEthNames s = fetchEthNames api s"
| "perform v api (FetchEthAddressBook location addresses) s =
     fetchEthAddressBook api location addresses s"
| "perform v api (AddEthAddressBook location entries) s =
     (case addEthAddressBook api location entries s of (ev, _, s1) \<Rightarrow> (ev, s1))"
| "perform v api (UpdateEthAddressBook location entries) s =
     (case updateEthAddressBook api location entries s of (ev, _, s1) \<Rightarrow> (ev, s1))"
| "perform v api (DeleteEthAddressBook location addresses) s =
     (case deleteEthAddressBook api location addresses s of (ev, _, s1) \<Rightarrow> (ev, s1))"

fun runOps ::
  "(string \<Rightarrow> bool) \<Rightarrow> (ethNamesApi \<times> storeOp) list \<Rightarrow> ethNamesState \<Rightarrow> ethNamesState" where
  "runOps v [] s = s"
| "runOps v ((api, op) # rest) s = runOps v rest (snd (perform v api op s))"

text \<open>The requests for ENS resolution among the effects of an operation.\<close>

fun isEnsResolution :: "effect \<Rightarrow> bool" where
  "isEnsResolution (Request (GetEnsNames _)) = True"
| "isEnsResolution (Request (GetEnsNamesTask _)) = True"
| "isEnsResolution _ = False"

fun isRequest :: "effect \<Rightarrow> bool" where
  "isRequest (Request _) = True"
| "isRequest _ = False"

text \<open>
  The list that \<^verbatim>\<open>updateEnsAddresses\<close> compares with the current worklist
  (\<^verbatim>\<open>newEnsAddresses\<close>), and the list that \<^verbatim>\<open>fetchEthNames\<close> sends (\<^verbatim>\<open>addresses\<close>).
\<close>

definition mergedWorklist :: "(string \<Rightarrow> bool) \<Rightarrow> string list \<Rightarrow> ethNamesState \<Rightarrow> string list" where
  "mergedWorklist v new s = filter v (filterIndexed uniqueStrings (ensAddresses s @ new))"

definition ethNamesAddresses :: "ethNamesState \<Rightarrow> string list" where
  "ethNamesAddresses s =
     filterIndexed uniqueStrings
       (map address (ethAddressBookGlobal s) @
        map address (ethAddressBookPrivate s) @
        ensAddresses s)"

text \<open>
  Concrete instances for evaluating the store: a validity test on the \<^verbatim>\<open>0x\<close> prefix, a
  backend that answers every call, and one on which every call rejects or reports failure.
\<close>

definition isValidExample :: "string \<Rightarrow> bool" where
  "isValidExample a = (take 2 a = ''0x'')"

definition okApi :: ethNamesApi where
  "okApi =
     \<lparr> getEnsNames = (\<lambda>a. Inr [''0xA'' \<mapsto> ''alice.eth'']),
       getEnsNamesTask = (\<lambda>a. Inr 7),
       awaitTask = (\<lambda>t. Inr ()),
       getEthNames = (\<lambda>a. Inr [''0xA'' \<mapsto> ''alice.eth'']),
       getEthAddressBook = (\<lambda>l a. Inr [\<lparr> address = ''0xB'', EthNamesEntry.name = ''Bob'' \<rparr>]),
       addAddressBook = (\<lambda>l e. Inr True),
       updateAddressBook = (\<lambda>l e. Inr True),
       deleteAddressBook = (\<lambda>l a. Inr True) \<rparr>"

definition failingApi :: ethNamesApi where
  "failingApi =
     \<lparr> getEnsNames = (\<lambda>a. Inl ''unreachable''),
       getEnsNamesTask = (\<lambda>a. Inl ''unreachable''),
       awaitTask = (\<lambda>t. Inl ''unreachable''),
       getEthNames = (\<lambda>a. Inl ''unreachable''),
       getEthAddressBook = (\<lambda>l a. Inl ''unreachable''),
       addAddressBook = (\<lambda>l e. Inr False),
       updateAddressBook = (\<lambda>l e. Inr False),
       deleteAddressBook = (\<lambda>l a. Inr False) \<rparr>"

definition exampleState :: ethNamesState where
  "exampleState =
     \<lparr> ensAddresses = [''0xA'', ''0xC''],
       ethNames = [''0xC'' \<mapsto> ''carol.eth''],
       ethAddressBookGlobal = [\<lparr> address = ''0xB'', EthNamesEntry.name = ''Bob'' \<rparr>,
                               \<lparr> address = ''0xA'', EthNamesEntry.name = ''Alice'' \<rparr>],
       ethAddressBookPrivate = [\<lparr> address = ''0xB'', EthNamesEntry.name = ''Robert'' \<rparr>] \<rparr>"

section \<open>The fallback chain in the words of the specification\<close>

text \<open>
  The chain the specification describes for the final name and symbol: the collection
  override if present, else the raw metadata value, else the synthesized fallback. A value
  is present when it is a non-empty string, which is what the code's \<^verbatim>\<open>||\<close> tests.
  \<open>followsFallbackChain\<close> says that \<^verbatim>\<open>assetInfo\<close> returns a record whose name and symbol are
  both given by that chain, the fallback being \<^verbatim>\<open>EVM Token: <address>\<close> for an EVM-shaped
  input identifier and the empty string otherwise.
\<close>

definition specFallbackChain :: "string option \<Rightarrow> string option \<Rightarrow> string \<Rightarrow> string option" where
  "specFallbackChain override raw fallback =
     (if truthy override then override else if truthy raw then raw else Some fallback)"

definition followsFallbackChain :: "asset_env \<Rightarrow> string \<Rightarrow> bool \<Rightarrow> bool \<Rightarrow> bool" where
  "followsFallbackChain env i enableAssociation isCollectionParent =
     (let data = retrieve env (canonicalKey env enableAssociation i);
          col = collectionDataOf env isCollectionParent data;
          fallback = (if isEvmIdentifier env i
                      then ''EVM Token: '' @ getAddressFromEvmIdentifier env i else [])
      in case assetInfo env (Some i) enableAssociation isCollectionParent of
           Inr (Some r) \<Rightarrow>
             AssetInfo.name r =
               specFallbackChain (case col of None \<Rightarrow> None | Some c \<Rightarrow> AssetCollection.name c)
                 (case data of None \<Rightarrow> None | Some d \<Rightarrow> AssetInfo.name d) fallback \<and>
             AssetInfo.symbol r =
               specFallbackChain (case col of None \<Rightarrow> None | Some c \<Rightarrow> AssetCollection.symbol c)
                 (case data of None \<Rightarrow> None | Some d \<Rightarrow> AssetInfo.symbol d) fallback
         | _ \<Rightarrow> False)"

section \<open>Properties of the asset info resolver\<close>

lemma isCustom_data: "isCustomAssetOf env data \<Longrightarrow> \<exists>d. data = Some d"
  by (cases data) (simp_all add: isCustomAssetOf_def)

lemma assetInfo_custom:
  assumes "i \<noteq> []" "\<not> isPending env i"
    and "retrieve env (canonicalKey env ea i) = Some d"
    and "isCustomAssetOf env (Some d)"
  shows "assetInfo env (Some i) ea icp =
           Inr (Some (d\<lparr> symbol := AssetInfo.name d, isCustomAsset := Some True \<rparr>))"
  using assms by (simp add: assetInfo_def Let_def)

lemma assetInfo_plain:
  assumes "i \<noteq> []" "\<not> isPending env i"
    and "retrieve env (canonicalKey env ea i) = data"
    and "\<not> isCustomAssetOf env data"
  shows "assetInfo env (Some i) ea icp =
           Inr (Some ((case data of None \<Rightarrow> emptyAssetInfo | Some d \<Rightarrow> d)
             \<lparr> isCustomAsset := Some False,
               name := js_or (case collectionDataOf env icp data of None \<Rightarrow> None
                                 | Some c \<Rightarrow> AssetCollection.name c)
                          (js_or (AssetInfo.name (case data of None \<Rightarrow> emptyAssetInfo | Some d \<Rightarrow> d))
                             (Some (getAssetNameFallback env i))),
               symbol := js_or (case collectionDataOf env icp data of None \<Rightarrow> None
                                 | Some c \<Rightarrow> AssetCollection.symbol c)
                          (js_or (AssetInfo.symbol (case data of None \<Rightarrow> emptyAssetInfo | Some d \<Rightarrow> d))
                             (Some (getAssetNameFallback env i))) \<rparr>))"
  using assms by (simp add: assetInfo_def Let_def)

lemma assetInfo_resolves:
  assumes "i \<noteq> []" and "\<not> isPending env i"
  shows "\<exists>r. assetInfo env (Some i) ea icp = Inr (Some r)"
proof (cases "isCustomAssetOf env (retrieve env (canonicalKey env ea i))")
  case True
  then obtain d where "retrieve env (canonicalKey env ea i) = Some d"
    using isCustom_data by blast
  with True assms show ?thesis by (simp add: assetInfo_def Let_def)
next
  case False
  with assms show ?thesis by (simp add: assetInfo_def Let_def)
qed

text \<open>
  C1. \<^verbatim>\<open>assetInfo\<close> never throws, and its result is \<^verbatim>\<open>null\<close> exactly when the identifier is
  undefined or empty, or is pending in the asset cache; in every other case the result is
  a record.
\<close>

theorem assetInfo_null_iff:
  "(\<exists>r. assetInfo env ident ea icp = Inr r) \<and>
   (assetInfo env ident ea icp = Inr None) =
     (case ident of None \<Rightarrow> True | Some i \<Rightarrow> i = [] \<or> isPending env i)"
proof (cases ident)
  case None
  then show ?thesis by (simp add: assetInfo_def)
next
  case (Some i)
  show ?thesis
  proof (cases "i = [] \<or> isPending env i")
    case True
    with Some show ?thesis by (auto simp: assetInfo_def)
  next
    case False
    then obtain r where "assetInfo env (Some i) ea icp = Inr (Some r)"
      using assetInfo_resolves [of i env ea icp] by blast
    with False Some show ?thesis by simp
  qed
qed

theorem assetInfo_null_iff_witness:
  "assetInfo ex_env None True True = Inr None \<and>
   assetInfo ex_env (Some []) True True = Inr None \<and>
   assetInfo ex_env (Some ''LOADING'') True True = Inr None \<and>
   assetInfo ex_env (Some ''BTC'') True True \<noteq> Inr None \<and>
   (\<exists>r. assetInfo ex_env (Some ''BTC'') True True = Inr r)"
  using assetInfo_null_iff [of ex_env None True True]
    assetInfo_null_iff [of ex_env "Some []" True True]
    assetInfo_null_iff [of ex_env "Some ''LOADING''" True True]
    assetInfo_null_iff [of ex_env "Some ''BTC''" True True]
  by (simp add: ex_env_def)

text \<open>
  C2. For a non-custom asset whose metadata declares a (non-empty) \<^verbatim>\<open>collectionId\<close>: with
  \<^verbatim>\<open>isCollectionParent = true\<close> the resolved name and symbol are the collection's name and
  symbol whenever the collection entry has them (a non-empty string), whatever the item's
  own name and symbol are; with \<^verbatim>\<open>isCollectionParent = false\<close> the item's own name and
  symbol are used (the fallback where they are missing), and the result is the same for
  every content of the fetched-collections mapping.
\<close>

theorem collection_override_precedence:
  assumes "i \<noteq> []" and "\<not> isPending env i"
    and "retrieve env (canonicalKey env ea i) = Some d"
    and "isCustomAsset d \<noteq> Some True" and "assetType d \<noteq> Some (CUSTOM_ASSET env)"
    and "collectionId d = Some c" and "c \<noteq> []"
  shows "\<exists>r r'. assetInfo env (Some i) ea True = Inr (Some r) \<and>
           (\<forall>col. fetchedAssetCollections env c = Some col \<longrightarrow>
              (truthy (AssetCollection.name col) \<longrightarrow> AssetInfo.name r = AssetCollection.name col) \<and>
              (truthy (AssetCollection.symbol col) \<longrightarrow> AssetInfo.symbol r = AssetCollection.symbol col)) \<and>
           assetInfo env (Some i) ea False = Inr (Some r') \<and>
           AssetInfo.name r' =
             (if truthy (AssetInfo.name d) then AssetInfo.name d else Some (getAssetNameFallback env i)) \<and>
           AssetInfo.symbol r' =
             (if truthy (AssetInfo.symbol d) then AssetInfo.symbol d else Some (getAssetNameFallback env i)) \<and>
           (\<forall>cols. assetInfo (env\<lparr> fetchedAssetCollections := cols \<rparr>) (Some i) ea False = Inr (Some r'))"
proof -
  have nc: "\<not> isCustomAssetOf env (Some d)"
    using assms(4,5) by (simp add: isCustomAssetOf_def)
  have k: "retrieve env (canonicalKey env ea i) = Some d"
    using assms(3) .
  note p = assetInfo_plain [OF assms(1,2) k nc]
  have cT: "collectionDataOf env True (Some d) = fetchedAssetCollections env c"
    using assms(6,7) by (simp add: collectionDataOf_def)
  have cF: "\<And>e. collectionDataOf e False (Some d) = None"
    by (simp add: collectionDataOf_def split: option.splits)
  have nc': "\<And>cols. \<not> isCustomAssetOf (env\<lparr> fetchedAssetCollections := cols \<rparr>) (Some d)"
    using nc by (simp add: isCustomAssetOf_def)
  have fb: "\<And>cols. getAssetNameFallback (env\<lparr> fetchedAssetCollections := cols \<rparr>) i = getAssetNameFallback env i"
    by (simp add: getAssetNameFallback_def)
  have p': "assetInfo (env\<lparr> fetchedAssetCollections := cols \<rparr>) (Some i) ea False =
     assetInfo env (Some i) ea False" for cols
  proof -
    let ?e = "env\<lparr> fetchedAssetCollections := cols \<rparr>"
    have 1: "\<not> isPending ?e i" using assms(2) by simp
    have 2: "retrieve ?e (canonicalKey ?e ea i) = Some d"
    proof -
      have "canonicalKey ?e ea i = canonicalKey env ea i" by (simp add: canonicalKey_def)
      then show ?thesis using k by simp
    qed
    show ?thesis
      unfolding assetInfo_plain [OF assms(1) 1 2 nc'] p [of False] cF fb by simp
  qed
  show ?thesis
    unfolding p' p [of True] p [of False] cT cF
    by (auto simp: js_or_def truthy_def)
qed

theorem collection_override_precedence_witness:
  "\<exists>r r'. assetInfo ex_env (Some ''TOKENA'') True True = Inr (Some r) \<and>
      AssetInfo.name r = Some ''Collection A'' \<and>
      assetInfo ex_env (Some ''TOKENA'') True False = Inr (Some r') \<and>
      AssetInfo.name r' = Some ''Token A'' \<and> AssetInfo.symbol r' = Some ''TKA''"
  using collection_override_precedence [of "''TOKENA''" ex_env True tokenA "''X''"]
  by (simp add: ex_env_def tokenA_def emptyAssetInfo_def canonicalKey_def
      getAssociatedAssetIdentifier_def assetAssociationMap_def
      getProperty_def objectPrototypeMembers_def ex_cache_def truthy_def) blast

text \<open>
  C3. When the metadata cached under the canonical key is flagged custom (the
  \<^verbatim>\<open>isCustomAsset\<close> flag, or an \<^verbatim>\<open>assetType\<close> equal to \<^verbatim>\<open>CUSTOM_ASSET\<close>), the record that
  \<^verbatim>\<open>assetInfo\<close> returns for a non-empty, non-pending identifier has its symbol equal to
  the metadata's name, and its \<^verbatim>\<open>isCustomAsset\<close> field is true.
\<close>

theorem custom_asset_symbol_is_name:
  assumes "i \<noteq> []" and "\<not> isPending env i"
    and "retrieve env (canonicalKey env ea i) = Some d"
    and "isCustomAsset d = Some True \<or> assetType d = Some (CUSTOM_ASSET env)"
  shows "\<exists>r. assetInfo env (Some i) ea icp = Inr (Some r) \<and>
             AssetInfo.symbol r = AssetInfo.name d \<and>
             AssetInfo.name r = AssetInfo.name d \<and>
             isCustomAsset r = Some True"
proof -
  have c: "isCustomAssetOf env (Some d)"
    using assms(4) by (simp add: isCustomAssetOf_def)
  have "assetInfo env (Some i) ea icp =
          Inr (Some (d\<lparr> symbol := AssetInfo.name d, isCustomAsset := Some True \<rparr>))"
    using assetInfo_custom [OF assms(1,2,3) c] .
  then show ?thesis by simp
qed

theorem custom_asset_symbol_is_name_witness:
  "\<exists>r. assetInfo ex_env (Some ''NFT'') True True = Inr (Some r) \<and>
       AssetInfo.symbol r = Some ''My Collectible'' \<and>
       AssetInfo.name r = Some ''My Collectible'' \<and>
       isCustomAsset r = Some True"
  using custom_asset_symbol_is_name [of "''NFT''" ex_env True myCollectible True]
  by (simp add: ex_env_def myCollectible_def emptyAssetInfo_def canonicalKey_def
      getAssociatedAssetIdentifier_def assetAssociationMap_def
      getProperty_def objectPrototypeMembers_def ex_cache_def)

lemma assoc_own_key_lookup:
  "i \<notin> set objectPrototypeMembers \<Longrightarrow>
   getAssociatedAssetIdentifier t i = JsString (if t \<and> i = ''ETH2'' then ''ETH'' else i)"
  by (simp add: getAssociatedAssetIdentifier_def assetAssociationMap_def getProperty_def)

text \<open>
  C5. \<^verbatim>\<open>getAssociatedAssetIdentifier\<close> is to return the mapped identifier for a key of the
  association map and the identifier unchanged otherwise. It reads the map, a plain object,
  with the identifier as property key, so an identifier that names a member of
  \<^verbatim>\<open>Object.prototype\<close> yields that inherited member and the \<^verbatim>\<open>??\<close> fallback is not taken:
  \<^verbatim>\<open>constructor\<close> is not a key of the association map under either setting, and the value
  returned for it is the inherited member, not the identifier.
\<close>

theorem assoc_returns_prototype_member:
  "assetAssociationMap True ''constructor'' = None \<and>
   assetAssociationMap False ''constructor'' = None \<and>
   getAssociatedAssetIdentifier True ''constructor'' = PrototypeMember ''constructor'' \<and>
   getAssociatedAssetIdentifier False ''constructor'' = PrototypeMember ''constructor'' \<and>
   getAssociatedAssetIdentifier False ''constructor'' \<noteq> JsString ''constructor''"
  by (simp add: getAssociatedAssetIdentifier_def assetAssociationMap_def getProperty_def
      objectPrototypeMembers_def)

text \<open>
  C4, as stated, fails on a custom asset: the custom branch returns before the chain is
  applied. For the metadata \<^verbatim>\<open>{isCustomAsset: true, name: 'My Collectible'}\<close> under a
  non-EVM identifier there is no collection override and no raw symbol, so the chain gives
  the empty fallback, while the symbol of the record is the metadata's name.
\<close>

theorem fallback_chain_custom_counterexample:
  "''NFT'' \<noteq> [] \<and> \<not> isPending ex_env ''NFT'' \<and>
   assetInfo ex_env (Some ''NFT'') True True =
     Inr (Some (myCollectible\<lparr> symbol := Some ''My Collectible'' \<rparr>)) \<and>
   AssetInfo.symbol myCollectible = None \<and>
   getAssetNameFallback ex_env ''NFT'' = [] \<and>
   \<not> followsFallbackChain ex_env ''NFT'' True True"
  by (simp add: followsFallbackChain_def specFallbackChain_def assetInfo_def Let_def
      ex_env_def myCollectible_def emptyAssetInfo_def canonicalKey_def isCustomAssetOf_def
      collectionDataOf_def truthy_def getAssociatedAssetIdentifier_def assetAssociationMap_def
      getProperty_def objectPrototypeMembers_def ex_cache_def
      getAssetNameFallback_def)

text \<open>
  C4, amended. For a non-empty, non-pending identifier whose cached metadata is not a custom
  asset, the final name and symbol each follow the chain: collection override if present
  (non-empty), else the raw metadata value if present, else the fallback, which is
  \<^verbatim>\<open>EVM Token: <address>\<close> for an EVM-shaped input identifier and the empty string
  otherwise. In particular, with no cached metadata, name and symbol are both
  \<^verbatim>\<open>EVM Token: <address>\<close> for an EVM identifier and both empty for any other.
\<close>

theorem fallback_chain_non_custom:
  assumes "i \<noteq> []" and "\<not> isPending env i"
    and "\<not> isCustomAssetOf env (retrieve env (canonicalKey env ea i))"
  shows "followsFallbackChain env i ea icp \<and>
         (retrieve env (canonicalKey env ea i) = None \<and> isEvmIdentifier env i \<longrightarrow>
            (\<exists>r. assetInfo env (Some i) ea icp = Inr (Some r) \<and>
                 AssetInfo.name r = Some (''EVM Token: '' @ getAddressFromEvmIdentifier env i) \<and>
                 AssetInfo.symbol r = Some (''EVM Token: '' @ getAddressFromEvmIdentifier env i))) \<and>
         (retrieve env (canonicalKey env ea i) = None \<and> \<not> isEvmIdentifier env i \<longrightarrow>
            (\<exists>r. assetInfo env (Some i) ea icp = Inr (Some r) \<and>
                 AssetInfo.name r = Some [] \<and> AssetInfo.symbol r = Some []))"
proof -
  note p = assetInfo_plain [OF assms(1,2) refl assms(3), of icp]
  have chain: "js_or a (js_or b (Some f)) = specFallbackChain a b f" for a b f
    by (simp add: js_or_def specFallbackChain_def)
  have 1: "followsFallbackChain env i ea icp"
    unfolding followsFallbackChain_def Let_def p chain
    by (cases "retrieve env (canonicalKey env ea i)")
       (simp_all add: getAssetNameFallback_def emptyAssetInfo_def)
  have 2: "\<exists>r. assetInfo env (Some i) ea icp = Inr (Some r) \<and>
                 AssetInfo.name r = Some (getAssetNameFallback env i) \<and>
                 AssetInfo.symbol r = Some (getAssetNameFallback env i)"
    if "retrieve env (canonicalKey env ea i) = None"
    unfolding p using that
    by (simp add: collectionDataOf_def emptyAssetInfo_def js_or_def truthy_def)
  from 1 2 show ?thesis by (auto simp: getAssetNameFallback_def)
qed

theorem fallback_chain_non_custom_witness:
  "followsFallbackChain ex_env ''TOKENA'' True True \<and>
   (\<exists>r. assetInfo ex_env (Some ''eip155:1/erc20:0xABC'') True True = Inr (Some r) \<and>
        AssetInfo.name r = Some ''EVM Token: 0xABC'' \<and>
        AssetInfo.symbol r = Some ''EVM Token: 0xABC'') \<and>
   (\<exists>r. assetInfo ex_env (Some ''BTC'') True True = Inr (Some r) \<and>
        AssetInfo.name r = Some [] \<and> AssetInfo.symbol r = Some [])"
  using fallback_chain_non_custom [of "''TOKENA''" ex_env True True]
    fallback_chain_non_custom [of "''eip155:1/erc20:0xABC''" ex_env True True]
    fallback_chain_non_custom [of "''BTC''" ex_env True True]
  by (simp add: ex_env_def tokenA_def emptyAssetInfo_def canonicalKey_def isCustomAssetOf_def
      getAssociatedAssetIdentifier_def assetAssociationMap_def
      getProperty_def objectPrototypeMembers_def ex_cache_def)

text \<open>
  C10. \<^verbatim>\<open>assetInfo\<close> makes its pending check on the raw input identifier, before
  association. For a non-empty identifier: when the identifier itself is pending the result
  is \<^verbatim>\<open>null\<close>; when it is not, the result is never \<^verbatim>\<open>null\<close>, also when association maps it to
  a different key and that key is pending, and it is the record merged from the entry read
  under the canonical key: for a custom entry the entry with its symbol set to its name,
  otherwise the entry (or the empty record when nothing is cached) with name and symbol
  taken from the collection override, else from the entry, else from the fallback of the raw
  identifier. The result depends on the pending state at the raw identifier only, and on
  the cache only through the entry read under the canonical key.
\<close>

theorem pending_checked_on_raw_identifier:
  assumes "i \<noteq> []"
  shows "(isPending env i \<longrightarrow> assetInfo env (Some i) ea icp = Inr None) \<and>
         (\<not> isPending env i \<longrightarrow>
            assetInfo env (Some i) ea icp =
              Inr (Some
                (case retrieve env (canonicalKey env ea i) of
                   None \<Rightarrow>
                     emptyAssetInfo
                       \<lparr> isCustomAsset := Some False,
                         name := Some (getAssetNameFallback env i),
                         symbol := Some (getAssetNameFallback env i) \<rparr>
                 | Some d \<Rightarrow>
                     if isCustomAsset d = Some True \<or> assetType d = Some (CUSTOM_ASSET env)
                     then d\<lparr> symbol := AssetInfo.name d, isCustomAsset := Some True \<rparr>
                     else
                       d\<lparr> isCustomAsset := Some False,
                          name :=
                            (case collectionDataOf env icp (Some d) of
                               None \<Rightarrow>
                                 if truthy (AssetInfo.name d) then AssetInfo.name d
                                 else Some (getAssetNameFallback env i)
                             | Some c \<Rightarrow>
                                 if truthy (AssetCollection.name c) then AssetCollection.name c
                                 else if truthy (AssetInfo.name d) then AssetInfo.name d
                                 else Some (getAssetNameFallback env i)),
                          symbol :=
                            (case collectionDataOf env icp (Some d) of
                               None \<Rightarrow>
                                 if truthy (AssetInfo.symbol d) then AssetInfo.symbol d
                                 else Some (getAssetNameFallback env i)
                             | Some c \<Rightarrow>
                                 if truthy (AssetCollection.symbol c) then AssetCollection.symbol c
                                 else if truthy (AssetInfo.symbol d) then AssetInfo.symbol d
                                 else Some (getAssetNameFallback env i)) \<rparr>))) \<and>
         (\<forall>k. canonicalKey env ea i = JsString k \<and> k \<noteq> i \<and> isPending env k \<and>
              \<not> isPending env i \<longrightarrow>
            (\<exists>r. assetInfo env (Some i) ea icp = Inr (Some r))) \<and>
         (\<forall>p. p i = isPending env i \<longrightarrow>
            assetInfo (env\<lparr> isPending := p \<rparr>) (Some i) ea icp = assetInfo env (Some i) ea icp) \<and>
         (\<forall>rt. rt (canonicalKey env ea i) = retrieve env (canonicalKey env ea i) \<longrightarrow>
            assetInfo (env\<lparr> retrieve := rt \<rparr>) (Some i) ea icp = assetInfo env (Some i) ea icp)"
proof -
  have n: "assetInfo env (Some i) ea icp = Inr None" if "isPending env i"
    using that by (simp add: assetInfo_def)
  have m: "assetInfo env (Some i) ea icp =
              Inr (Some
                (case retrieve env (canonicalKey env ea i) of
                   None \<Rightarrow>
                     emptyAssetInfo
                       \<lparr> isCustomAsset := Some False,
                         name := Some (getAssetNameFallback env i),
                         symbol := Some (getAssetNameFallback env i) \<rparr>
                 | Some d \<Rightarrow>
                     if isCustomAsset d = Some True \<or> assetType d = Some (CUSTOM_ASSET env)
                     then d\<lparr> symbol := AssetInfo.name d, isCustomAsset := Some True \<rparr>
                     else
                       d\<lparr> isCustomAsset := Some False,
                          name :=
                            (case collectionDataOf env icp (Some d) of
                               None \<Rightarrow>
                                 if truthy (AssetInfo.name d) then AssetInfo.name d
                                 else Some (getAssetNameFallback env i)
                             | Some c \<Rightarrow>
                                 if truthy (AssetCollection.name c) then AssetCollection.name c
                                 else if truthy (AssetInfo.name d) then AssetInfo.name d
                                 else Some (getAssetNameFallback env i)),
                          symbol :=
                            (case collectionDataOf env icp (Some d) of
                               None \<Rightarrow>
                                 if truthy (AssetInfo.symbol d) then AssetInfo.symbol d
                                 else Some (getAssetNameFallback env i)
                             | Some c \<Rightarrow>
                                 if truthy (AssetCollection.symbol c) then AssetCollection.symbol c
                                 else if truthy (AssetInfo.symbol d) then AssetInfo.symbol d
                                 else Some (getAssetNameFallback env i)) \<rparr>))"
    if np: "\<not> isPending env i"
  proof (cases "retrieve env (canonicalKey env ea i)")
    case None
    then have nc: "\<not> isCustomAssetOf env (retrieve env (canonicalKey env ea i))"
      by (simp add: isCustomAssetOf_def)
    show ?thesis
      unfolding assetInfo_plain [OF assms np refl nc, of icp] None
      by (simp add: collectionDataOf_def emptyAssetInfo_def js_or_def truthy_def)
  next
    case (Some d)
    show ?thesis
    proof (cases "isCustomAsset d = Some True \<or> assetType d = Some (CUSTOM_ASSET env)")
      case True
      then have "isCustomAssetOf env (Some d)" by (simp add: isCustomAssetOf_def)
      from assetInfo_custom [OF assms np Some this, of icp] True show ?thesis
        by (simp add: Some)
    next
      case False
      then have nc: "\<not> isCustomAssetOf env (Some d)" by (simp add: isCustomAssetOf_def)
      have tn: "\<not> truthy None" by (simp add: truthy_def)
      from assetInfo_plain [OF assms np Some nc, of icp] False show ?thesis
        by (simp add: Some js_or_def tn split: option.splits)
    qed
  qed
  have a: "\<exists>r. assetInfo env (Some i) ea icp = Inr (Some r)" if "\<not> isPending env i"
    using assetInfo_resolves [OF assms that] .
  have b: "assetInfo (env\<lparr> isPending := p \<rparr>) (Some i) ea icp = assetInfo env (Some i) ea icp"
    if "p i = isPending env i" for p
  proof -
    let ?e = "env\<lparr> isPending := p \<rparr>"
    have k: "canonicalKey ?e ea i = canonicalKey env ea i"
      by (simp add: canonicalKey_def)
    have c: "isCustomAssetOf ?e = isCustomAssetOf env"
      by (simp add: isCustomAssetOf_def fun_eq_iff split: option.splits)
    have d: "collectionDataOf ?e = collectionDataOf env"
      by (simp add: collectionDataOf_def fun_eq_iff split: option.splits)
    have f: "getAssetNameFallback ?e = getAssetNameFallback env"
      by (simp add: getAssetNameFallback_def fun_eq_iff)
    show ?thesis
      using that assms by (simp add: assetInfo_def Let_def k c d f)
  qed
  have c: "assetInfo (env\<lparr> retrieve := rt \<rparr>) (Some i) ea icp = assetInfo env (Some i) ea icp"
    if "rt (canonicalKey env ea i) = retrieve env (canonicalKey env ea i)" for rt
  proof -
    let ?e = "env\<lparr> retrieve := rt \<rparr>"
    have k: "canonicalKey ?e ea i = canonicalKey env ea i"
      by (simp add: canonicalKey_def)
    have c: "isCustomAssetOf ?e = isCustomAssetOf env"
      by (simp add: isCustomAssetOf_def fun_eq_iff split: option.splits)
    have d: "collectionDataOf ?e = collectionDataOf env"
      by (simp add: collectionDataOf_def fun_eq_iff split: option.splits)
    have f: "getAssetNameFallback ?e = getAssetNameFallback env"
      by (simp add: getAssetNameFallback_def fun_eq_iff)
    show ?thesis
      using that assms by (simp add: assetInfo_def Let_def k c d f)
  qed
  from n m a b c show ?thesis by blast
qed

theorem pending_checked_on_raw_identifier_witness:
  "canonicalKey ex_env True ''ETH2'' = JsString ''ETH'' \<and>
   isPending ex_env ''ETH'' \<and> \<not> isPending ex_env ''ETH2'' \<and>
   assetInfo ex_env (Some ''ETH'') True True = Inr None \<and>
   assetInfo ex_env (Some ''ETH2'') True True =
     Inr (Some (ethMeta\<lparr> isCustomAsset := Some False \<rparr>)) \<and>
   assetInfo ex_env (Some ''NFT'') True True =
     Inr (Some (myCollectible\<lparr> symbol := Some ''My Collectible'' \<rparr>)) \<and>
   assetInfo (ex_env\<lparr> isPending := (\<lambda>k. False) \<rparr>) (Some ''ETH2'') True True =
     assetInfo ex_env (Some ''ETH2'') True True"
  using pending_checked_on_raw_identifier [of "''ETH2''" ex_env True True]
    pending_checked_on_raw_identifier [of "''ETH''" ex_env True True]
    pending_checked_on_raw_identifier [of "''NFT''" ex_env True True]
  by (simp add: ex_env_def ethMeta_def myCollectible_def emptyAssetInfo_def canonicalKey_def
      collectionDataOf_def truthy_def getAssociatedAssetIdentifier_def assetAssociationMap_def
      getProperty_def objectPrototypeMembers_def ex_cache_def)

section \<open>Deduplication keeps first occurrences\<close>

lemma uniqueStrings_prefix:
  assumes "(v, idx) \<in> set (zip xs [0..<length xs])"
  shows "uniqueStrings v idx (xs @ [x]) = uniqueStrings v idx xs"
proof -
  from assms have "v \<in> set xs" by (auto dest: set_zip_leftD)
  then show ?thesis
    by (simp add: uniqueStrings_def indexOf_def takeWhile_append1)
qed

lemma takeWhile_all: "v \<notin> set xs \<Longrightarrow> takeWhile (\<lambda>x. x \<noteq> v) xs = xs"
  by (induction xs) auto

lemma length_takeWhile_mem: "v \<in> set xs \<Longrightarrow> length (takeWhile (\<lambda>x. x \<noteq> v) xs) < length xs"
  by (induction xs) auto

lemma uniqueStrings_last:
  "uniqueStrings x (length xs) (xs @ [x]) = (x \<notin> set xs)"
proof (cases "x \<in> set xs")
  case True
  then have "takeWhile (\<lambda>y. y \<noteq> x) (xs @ [x]) = takeWhile (\<lambda>y. y \<noteq> x) xs"
    by (simp add: takeWhile_append1)
  with True length_takeWhile_mem [OF True] show ?thesis
    by (simp add: uniqueStrings_def indexOf_def)
next
  case False
  then have "takeWhile (\<lambda>y. y \<noteq> x) (xs @ [x]) = xs"
    by (induction xs) auto
  with False show ?thesis by (simp add: uniqueStrings_def indexOf_def)
qed

lemma filterIndexed_unique_snoc:
  "filterIndexed uniqueStrings (xs @ [x]) =
     filterIndexed uniqueStrings xs @ (if x \<in> set xs then [] else [x])"
proof -
  have "filter (\<lambda>(v, idx). uniqueStrings v idx (xs @ [x])) (zip xs [0..<length xs]) =
        filter (\<lambda>(v, idx). uniqueStrings v idx xs) (zip xs [0..<length xs])"
    by (rule filter_cong) (auto simp: uniqueStrings_prefix)
  then show ?thesis
    by (simp add: filterIndexed_def uniqueStrings_last)
qed

lemma filterIndexed_unique_Nil: "filterIndexed uniqueStrings [] = []"
  by (simp add: filterIndexed_def)

lemma set_filterIndexed_unique: "set (filterIndexed uniqueStrings xs) = set xs"
  by (induction xs rule: rev_induct)
     (auto simp: filterIndexed_unique_Nil filterIndexed_unique_snoc)

lemma distinct_filterIndexed_unique: "distinct (filterIndexed uniqueStrings xs)"
  by (induction xs rule: rev_induct)
     (auto simp: filterIndexed_unique_Nil filterIndexed_unique_snoc set_filterIndexed_unique)

lemma filterIndexed_unique_distinct: "distinct xs \<Longrightarrow> filterIndexed uniqueStrings xs = xs"
  by (induction xs rule: rev_induct)
     (auto simp: filterIndexed_unique_Nil filterIndexed_unique_snoc)

lemma filterIndexed_unique_append:
  "distinct xs \<Longrightarrow> filterIndexed uniqueStrings (xs @ ys) =
     xs @ filter (\<lambda>y. y \<notin> set xs) (filterIndexed uniqueStrings ys)"
proof (induction ys rule: rev_induct)
  case Nil
  then show ?case by (simp add: filterIndexed_unique_Nil filterIndexed_unique_distinct)
next
  case (snoc y ys)
  have "filterIndexed uniqueStrings (xs @ ys @ [y]) =
        filterIndexed uniqueStrings (xs @ ys) @ (if y \<in> set (xs @ ys) then [] else [y])"
    using filterIndexed_unique_snoc [of "xs @ ys" y] by simp
  with snoc show ?case by (auto simp: filterIndexed_unique_snoc)
qed

lemma filterIndexed_unique_Cons:
  "filterIndexed uniqueStrings (x # xs) =
     x # filter (\<lambda>y. y \<noteq> x) (filterIndexed uniqueStrings xs)"
  using filterIndexed_unique_append [of "[x]" xs] by simp

section \<open>The worklist under the store's operations\<close>

lemma updateEnsAddresses_fst:
  "fst (updateEnsAddresses v new s) = (mergedWorklist v new s \<noteq> ensAddresses s)"
  by (simp add: updateEnsAddresses_def mergedWorklist_def Let_def)

lemma updateEnsAddresses_snd:
  "snd (updateEnsAddresses v new s) = s\<lparr> ensAddresses := mergedWorklist v new s \<rparr>"
  by (simp add: updateEnsAddresses_def mergedWorklist_def Let_def)

lemma mergedWorklist_ok:
  "distinct (mergedWorklist v new s) \<and> list_all v (mergedWorklist v new s)"
  by (simp add: mergedWorklist_def distinct_filterIndexed_unique list_all_iff)

lemma mergedWorklist_inv:
  assumes "distinct (ensAddresses s)" and "list_all v (ensAddresses s)"
  shows "mergedWorklist v new s =
           ensAddresses s @
           filter v (filter (\<lambda>y. y \<notin> set (ensAddresses s)) (filterIndexed uniqueStrings new))"
proof -
  have "filter v (ensAddresses s) = ensAddresses s"
    using assms(2) by (simp add: list_all_iff)
  then show ?thesis
    by (simp add: mergedWorklist_def filterIndexed_unique_append [OF assms(1)])
qed

lemma mergedWorklist_set:
  assumes "distinct (ensAddresses s)" and "list_all v (ensAddresses s)"
  shows "set (mergedWorklist v new s) = set (ensAddresses s) \<union> set (filter v new)"
  unfolding mergedWorklist_inv [OF assms]
  by (auto simp: set_filterIndexed_unique)

lemma fetchEthNames_ens: "ensAddresses (snd (fetchEthNames api s)) = ensAddresses s"
  by (simp add: fetchEthNames_def Let_def split: sum.splits)

lemma fetchEthNames_no_ens_request: "filter isEnsResolution (fst (fetchEthNames api s)) = []"
  by (simp add: fetchEthNames_def Let_def split: sum.splits)

lemma updateEthAddressBookState_ens:
  "ensAddresses (snd (updateEthAddressBookState api l r s)) = ensAddresses s"
  by (simp add: updateEthAddressBookState_def fetchEthNames_ens)

lemma fetchEthAddressBook_ens:
  "ensAddresses (snd (fetchEthAddressBook api l a s)) = ensAddresses s"
  by (cases "getEthAddressBook api l a")
     (simp_all add: fetchEthAddressBook_def case_prod_beta updateEthAddressBookState_ens)

lemma addEthAddressBook_ens:
  "ensAddresses (snd (snd (addEthAddressBook api l es s))) = ensAddresses s"
  by (cases "addAddressBook api l es")
     (simp_all add: addEthAddressBook_def case_prod_beta fetchEthAddressBook_ens)

lemma updateEthAddressBook_ens:
  "ensAddresses (snd (snd (updateEthAddressBook api l es s))) = ensAddresses s"
  by (cases "updateAddressBook api l es")
     (simp_all add: updateEthAddressBook_def case_prod_beta fetchEthAddressBook_ens)

lemma deleteEthAddressBook_ens:
  "ensAddresses (snd (snd (deleteEthAddressBook api l as s))) = ensAddresses s"
  by (cases "deleteAddressBook api l as")
     (simp_all add: deleteEthAddressBook_def case_prod_beta fetchEthAddressBook_ens)

lemma fetchEnsNames_ens:
  "ensAddresses (snd (snd (fetchEnsNames v api addrs force s))) =
     (if addrs = [] then ensAddresses s else mergedWorklist v addrs s)"
proof (cases "addrs = []")
  case True
  then show ?thesis by (simp add: fetchEnsNames_def)
next
  case False
  obtain ch s1 where u: "updateEnsAddresses v addrs s = (ch, s1)"
    by (cases "updateEnsAddresses v addrs s")
  have s1: "s1 = s\<lparr> ensAddresses := mergedWorklist v addrs s \<rparr>"
    using updateEnsAddresses_snd [of v addrs s] u by simp
  have e: "ensAddresses s1 = mergedWorklist v addrs s" by (simp add: s1)
  show ?thesis
    using False
    by (simp add: fetchEnsNames_def u e Let_def case_prod_beta fetchEthNames_ens
        split: sum.splits)
qed

lemma perform_ens:
  "ensAddresses (snd (perform v api op s)) =
     (case op of
        FetchEnsNames addrs force \<Rightarrow>
          if addrs = [] then ensAddresses s else mergedWorklist v addrs s
      | _ \<Rightarrow> ensAddresses s)"
  by (cases op)
     (simp_all add: case_prod_beta fetchEnsNames_ens fetchEthNames_ens fetchEthAddressBook_ens
        addEthAddressBook_ens updateEthAddressBook_ens deleteEthAddressBook_ens)

lemma perform_inv:
  assumes "distinct (ensAddresses s)" and "list_all v (ensAddresses s)"
  shows "distinct (ensAddresses (snd (perform v api op s))) \<and>
         list_all v (ensAddresses (snd (perform v api op s))) \<and>
         set (ensAddresses s) \<subseteq> set (ensAddresses (snd (perform v api op s)))"
  unfolding perform_ens
  using assms mergedWorklist_ok [of v _ s] mergedWorklist_set [OF assms]
  by (cases op) auto

lemma runOps_inv:
  assumes "distinct (ensAddresses s)" and "list_all v (ensAddresses s)"
  shows "distinct (ensAddresses (runOps v ops s)) \<and>
         list_all v (ensAddresses (runOps v ops s)) \<and>
         set (ensAddresses s) \<subseteq> set (ensAddresses (runOps v ops s))"
  using assms
proof (induction ops arbitrary: s)
  case Nil
  then show ?case by simp
next
  case (Cons x ops)
  obtain api op where x: "x = (api, op)" by (cases x)
  note st = perform_inv [OF Cons.prems, of api op]
  from st have d: "distinct (ensAddresses (snd (perform v api op s)))"
    and l: "list_all v (ensAddresses (snd (perform v api op s)))" by simp_all
  from Cons.IH [OF d l] st show ?case unfolding x by auto
qed

lemma runOps_append: "runOps v (xs @ ys) s = runOps v ys (runOps v xs s)"
  by (induction xs arbitrary: s) auto


section \<open>Requests and failures of the store's operations\<close>

lemma fetchEthNames_requests:
  "filter isRequest (fst (fetchEthNames api s)) = [Request (GetEthNames (ethNamesAddresses s))]"
  by (simp add: fetchEthNames_def ethNamesAddresses_def Let_def split: sum.splits)

lemma fetchEthNames_ok:
  "getEthNames api (ethNamesAddresses s) = Inr r \<Longrightarrow>
   fetchEthNames api s = ([Request (GetEthNames (ethNamesAddresses s))], s\<lparr> ethNames := r \<rparr>)"
  by (simp add: fetchEthNames_def ethNamesAddresses_def Let_def)

lemma fetchEthNames_fail:
  "getEthNames api (ethNamesAddresses s) = Inl e \<Longrightarrow>
   fetchEthNames api s =
     ([Request (GetEthNames (ethNamesAddresses s)), LogError e,
       Notify ''eth_names.error.title'' e], s)"
  by (simp add: fetchEthNames_def ethNamesAddresses_def Let_def)

lemma fetchEthAddressBook_fail:
  "getEthAddressBook api l a = Inl e \<Longrightarrow>
   fetchEthAddressBook api l a s =
     ([Request (GetEthAddressBook l a), LogError e,
       Notify ''eth_address_book.actions.fetch.error.title'' e], s)"
  by (simp add: fetchEthAddressBook_def)

lemma fetchEnsNames_unchanged:
  assumes "\<not> fst (updateEnsAddresses v addrs s)"
  shows "fetchEnsNames v api addrs False s = ([], Inr (), s)"
proof -
  from assms have "updateEnsAddresses v addrs s = (False, s)"
    by (simp add: updateEnsAddresses_def Let_def)
  then show ?thesis by (simp add: fetchEnsNames_def)
qed

lemma fetchEnsNames_resolves:
  assumes "addrs \<noteq> []" and "mergedWorklist v addrs s \<noteq> []"
    and "force \<or> mergedWorklist v addrs s \<noteq> ensAddresses s"
  shows "filter isEnsResolution (fst (fetchEnsNames v api addrs force s)) =
           [Request ((if force then GetEnsNamesTask else GetEnsNames) (mergedWorklist v addrs s))]"
proof -
  obtain ch s1 where u: "updateEnsAddresses v addrs s = (ch, s1)"
    by (cases "updateEnsAddresses v addrs s")
  have s1: "s1 = s\<lparr> ensAddresses := mergedWorklist v addrs s \<rparr>"
    using updateEnsAddresses_snd [of v addrs s] u by simp
  have e: "ensAddresses s1 = mergedWorklist v addrs s" by (simp add: s1)
  have ch: "ch = (mergedWorklist v addrs s \<noteq> ensAddresses s)"
    using updateEnsAddresses_fst [of v addrs s] u by simp
  show ?thesis
    using assms
    by (auto simp: fetchEnsNames_def u e ch Let_def case_prod_beta
        fetchEthNames_no_ens_request split: sum.splits)
qed

lemma mergedWorklist_known:
  assumes "distinct (ensAddresses s)" and "list_all v (ensAddresses s)"
    and "a \<in> set (ensAddresses s)"
  shows "mergedWorklist v [a] s = ensAddresses s"
  using assms(3)
  by (simp add: mergedWorklist_inv [OF assms(1,2)] filterIndexed_unique_Cons
      filterIndexed_unique_Nil)

text \<open>
  C9. After any sequence of store operations from the initial state, the worklist
  \<^verbatim>\<open>ensAddresses\<close> has no duplicates and holds only addresses that \<^verbatim>\<open>isValidEthAddress\<close>
  accepts; no later operation removes an entry from it; and \<^verbatim>\<open>updateEnsAddresses\<close> merges:
  the worklist afterwards is, as a set, the worklist before together with the valid new
  addresses.
\<close>

theorem worklist_invariant:
  "distinct (ensAddresses (runOps v ops initialState)) \<and>
   list_all v (ensAddresses (runOps v ops initialState)) \<and>
   set (ensAddresses (runOps v ops initialState)) \<subseteq>
     set (ensAddresses (runOps v (ops @ later) initialState)) \<and>
   set (ensAddresses (snd (updateEnsAddresses v new (runOps v ops initialState)))) =
     set (ensAddresses (runOps v ops initialState)) \<union> set (filter v new)"
proof -
  have i: "distinct (ensAddresses initialState)" "list_all v (ensAddresses initialState)"
    by (simp_all add: initialState_def)
  note a = runOps_inv [OF i, of ops]
  from a have d: "distinct (ensAddresses (runOps v ops initialState))"
    and l: "list_all v (ensAddresses (runOps v ops initialState))" by simp_all
  note b = runOps_inv [OF d l, of later]
  have c: "set (ensAddresses (snd (updateEnsAddresses v new (runOps v ops initialState)))) =
     set (ensAddresses (runOps v ops initialState)) \<union> set (filter v new)"
    using mergedWorklist_set [OF d l, of new] by (simp add: updateEnsAddresses_snd)
  from a b c show ?thesis by (simp add: runOps_append)
qed

theorem worklist_invariant_witness:
  "ensAddresses (runOps isValidExample
      [(okApi, FetchEnsNames [''0xA'', ''bad'', ''0xA''] False),
       (okApi, DeleteEthAddressBook Global [''0xA'']),
       (failingApi, FetchEnsNames [''0xB'', ''0xA''] True)] initialState) = [''0xA'', ''0xB''] \<and>
   distinct (ensAddresses (runOps isValidExample
      [(okApi, FetchEnsNames [''0xA'', ''bad'', ''0xA''] False)] initialState)) \<and>
   set (ensAddresses (runOps isValidExample
      [(okApi, FetchEnsNames [''0xA'', ''bad'', ''0xA''] False)] initialState)) \<subseteq>
   set (ensAddresses (runOps isValidExample
      ([(okApi, FetchEnsNames [''0xA'', ''bad'', ''0xA''] False)] @
       [(okApi, DeleteEthAddressBook Global [''0xA'']),
        (failingApi, FetchEnsNames [''0xB'', ''0xA''] True)]) initialState))"
  using worklist_invariant [of isValidExample
      "[(okApi, FetchEnsNames [''0xA'', ''bad'', ''0xA''] False)]"
      "[(okApi, DeleteEthAddressBook Global [''0xA'']),
        (failingApi, FetchEnsNames [''0xB'', ''0xA''] True)]" "[]"]
  by (simp add: perform_ens mergedWorklist_def filterIndexed_unique_Cons
      filterIndexed_unique_Nil initialState_def isValidExample_def del: perform.simps)

text \<open>
  C6. \<^verbatim>\<open>fetchEnsNames\<close> does nothing on an empty address list; with \<^verbatim>\<open>forceUpdate = false\<close> and
  addresses that leave the deduplicated, validity-filtered worklist as it is, it returns
  without any request and without any change. Hence, for a valid address not yet in the
  worklist, two successive calls without \<^verbatim>\<open>forceUpdate\<close> send exactly one ENS resolution
  request (the first call's \<^verbatim>\<open>getEnsNames\<close>; the second call has no effect at all), whatever
  the backend answers, and a further call with \<^verbatim>\<open>forceUpdate = true\<close> sends one
  \<^verbatim>\<open>getEnsNamesTask\<close> request although the worklist does not change.
\<close>

theorem fetchEnsNames_backend_calls:
  "fetchEnsNames v api [] force s = ([], Inr (), s) \<and>
   (\<not> fst (updateEnsAddresses v addrs s) \<longrightarrow>
      fetchEnsNames v api addrs False s = ([], Inr (), s)) \<and>
   (v a \<and> a \<notin> set (ensAddresses s) \<longrightarrow>
      (let r1 = fetchEnsNames v api1 [a] False s; s1 = snd (snd r1);
           r2 = fetchEnsNames v api2 [a] False s1; s2 = snd (snd r2);
           r3 = fetchEnsNames v api3 [a] True s2
       in filter isEnsResolution (fst r1) = [Request (GetEnsNames (ensAddresses s1))] \<and>
          fst r2 = [] \<and> s2 = s1 \<and>
          length (filter isEnsResolution (fst r1 @ fst r2)) = 1 \<and>
          \<not> fst (updateEnsAddresses v [a] s2) \<and>
          filter isEnsResolution (fst r3) = [Request (GetEnsNamesTask (ensAddresses s2))] \<and>
          ensAddresses (snd (snd r3)) = ensAddresses s2))"
proof -
  have A: "fetchEnsNames v api [] force s = ([], Inr (), s)"
    by (simp add: fetchEnsNames_def)
  have C: "(let r1 = fetchEnsNames v api1 [a] False s; s1 = snd (snd r1);
           r2 = fetchEnsNames v api2 [a] False s1; s2 = snd (snd r2);
           r3 = fetchEnsNames v api3 [a] True s2
       in filter isEnsResolution (fst r1) = [Request (GetEnsNames (ensAddresses s1))] \<and>
          fst r2 = [] \<and> s2 = s1 \<and>
          length (filter isEnsResolution (fst r1 @ fst r2)) = 1 \<and>
          \<not> fst (updateEnsAddresses v [a] s2) \<and>
          filter isEnsResolution (fst r3) = [Request (GetEnsNamesTask (ensAddresses s2))] \<and>
          ensAddresses (snd (snd r3)) = ensAddresses s2)"
    if va: "v a" and new: "a \<notin> set (ensAddresses s)"
  proof -
    let ?N = "mergedWorklist v [a] s"
    define s1 where "s1 = snd (snd (fetchEnsNames v api1 [a] False s))"
    have mem: "a \<in> set ?N"
      using va by (simp add: mergedWorklist_def set_filterIndexed_unique)
    then have ne: "?N \<noteq> []" and ch: "?N \<noteq> ensAddresses s"
      using new by auto
    have e1: "ensAddresses s1 = ?N"
      unfolding s1_def by (simp add: fetchEnsNames_ens)
    have r1: "filter isEnsResolution (fst (fetchEnsNames v api1 [a] False s)) =
                [Request (GetEnsNames ?N)]"
      using fetchEnsNames_resolves [of "[a]" v s False api1] ne ch by simp
    have ok1: "distinct (ensAddresses s1)" "list_all v (ensAddresses s1)"
      using mergedWorklist_ok [of v "[a]" s] by (simp_all add: e1)
    have same: "mergedWorklist v [a] s1 = ensAddresses s1"
      using mergedWorklist_known [OF ok1] mem by (simp add: e1)
    then have un: "\<not> fst (updateEnsAddresses v [a] s1)"
      by (simp add: updateEnsAddresses_fst)
    have r2: "fetchEnsNames v api2 [a] False s1 = ([], Inr (), s1)"
      using fetchEnsNames_unchanged [OF un] .
    have r3: "filter isEnsResolution (fst (fetchEnsNames v api3 [a] True s1)) =
                [Request (GetEnsNamesTask (ensAddresses s1))]"
      using fetchEnsNames_resolves [of "[a]" v s1 True api3] ne by (simp add: same e1)
    have e3: "ensAddresses (snd (snd (fetchEnsNames v api3 [a] True s1))) = ensAddresses s1"
      by (simp add: fetchEnsNames_ens same)
    show ?thesis
      unfolding Let_def s1_def [symmetric]
      by (simp add: r1 r2 r3 e3 e1 un)
  qed
  from A C fetchEnsNames_unchanged [of v addrs s api] show ?thesis by blast
qed

theorem fetchEnsNames_backend_calls_witness:
  "fetchEnsNames isValidExample okApi [] True exampleState = ([], Inr (), exampleState) \<and>
   fetchEnsNames isValidExample okApi [''0xC'', ''bad''] False exampleState =
     ([], Inr (), exampleState) \<and>
   filter isEnsResolution (fst (fetchEnsNames isValidExample okApi [''0xD''] False exampleState)) =
     [Request (GetEnsNames [''0xA'', ''0xC'', ''0xD''])] \<and>
   fst (fetchEnsNames isValidExample okApi [''0xD''] False
          (snd (snd (fetchEnsNames isValidExample okApi [''0xD''] False exampleState)))) = [] \<and>
   filter isEnsResolution
     (fst (fetchEnsNames isValidExample okApi [''0xD''] True
             (snd (snd (fetchEnsNames isValidExample okApi [''0xD''] False exampleState))))) =
     [Request (GetEnsNamesTask [''0xA'', ''0xC'', ''0xD''])]"
proof -
  have v: "isValidExample ''0xD''"
    by (simp add: isValidExample_def)
  have n: "''0xD'' \<notin> set (ensAddresses exampleState)"
    by (simp add: exampleState_def)
  have u: "\<not> fst (updateEnsAddresses isValidExample [''0xC'', ''bad''] exampleState)"
    by (simp add: updateEnsAddresses_fst mergedWorklist_def exampleState_def
        isValidExample_def filterIndexed_unique_Cons filterIndexed_unique_Nil)
  have e: "ensAddresses (snd (snd (fetchEnsNames isValidExample okApi [''0xD''] False exampleState))) =
             [''0xA'', ''0xC'', ''0xD'']"
    by (simp add: fetchEnsNames_ens mergedWorklist_def exampleState_def
        isValidExample_def filterIndexed_unique_Cons filterIndexed_unique_Nil)
  note t = fetchEnsNames_backend_calls
    [of isValidExample okApi True exampleState "[''0xC'', ''bad'']" "''0xD''" okApi okApi okApi]
  from t have a: "fetchEnsNames isValidExample okApi [] True exampleState = ([], Inr (), exampleState)"
    by blast
  from t u have b: "fetchEnsNames isValidExample okApi [''0xC'', ''bad''] False exampleState =
     ([], Inr (), exampleState)"
    by blast
  from t v n have c:
    "(let r1 = fetchEnsNames isValidExample okApi [''0xD''] False exampleState; s1 = snd (snd r1);
          r2 = fetchEnsNames isValidExample okApi [''0xD''] False s1; s2 = snd (snd r2);
          r3 = fetchEnsNames isValidExample okApi [''0xD''] True s2
      in filter isEnsResolution (fst r1) = [Request (GetEnsNames (ensAddresses s1))] \<and>
         fst r2 = [] \<and> s2 = s1 \<and>
         length (filter isEnsResolution (fst r1 @ fst r2)) = 1 \<and>
         \<not> fst (updateEnsAddresses isValidExample [''0xD''] s2) \<and>
         filter isEnsResolution (fst r3) = [Request (GetEnsNamesTask (ensAddresses s2))] \<and>
         ensAddresses (snd (snd r3)) = ensAddresses s2)"
    by blast
  from c have d:
    "filter isEnsResolution (fst (fetchEnsNames isValidExample okApi [''0xD''] False exampleState)) =
       [Request (GetEnsNames [''0xA'', ''0xC'', ''0xD''])]"
    "fst (fetchEnsNames isValidExample okApi [''0xD''] False
          (snd (snd (fetchEnsNames isValidExample okApi [''0xD''] False exampleState)))) = []"
    "filter isEnsResolution
     (fst (fetchEnsNames isValidExample okApi [''0xD''] True
             (snd (snd (fetchEnsNames isValidExample okApi [''0xD''] False exampleState))))) =
     [Request (GetEnsNamesTask [''0xA'', ''0xC'', ''0xD''])]"
    unfolding Let_def by (auto simp: e)
  from a b d show ?thesis by simp
qed

text \<open>
  C7. \<^verbatim>\<open>fetchEthNames\<close> sends one request, \<^verbatim>\<open>getEthNames\<close>, for a duplicate-free list whose
  elements are exactly the addresses of the global address book, of the private address
  book and of the ENS worklist; when the backend answers, the name mapping becomes the
  answer, and nothing else of the state changes.
\<close>

theorem fetchEthNames_rebuild:
  "distinct (ethNamesAddresses s) \<and>
   set (ethNamesAddresses s) =
     address ` set (ethAddressBookGlobal s) \<union> address ` set (ethAddressBookPrivate s) \<union>
     set (ensAddresses s) \<and>
   filter isRequest (fst (fetchEthNames api s)) = [Request (GetEthNames (ethNamesAddresses s))] \<and>
   (\<forall>r. getEthNames api (ethNamesAddresses s) = Inr r \<longrightarrow>
      fetchEthNames api s =
        ([Request (GetEthNames (ethNamesAddresses s))], s\<lparr> ethNames := r \<rparr>) \<and>
      ethNames (snd (fetchEthNames api s)) = r)"
proof -
  have 1: "distinct (ethNamesAddresses s)"
    by (simp add: ethNamesAddresses_def distinct_filterIndexed_unique)
  have 2: "set (ethNamesAddresses s) =
     address ` set (ethAddressBookGlobal s) \<union> address ` set (ethAddressBookPrivate s) \<union>
     set (ensAddresses s)"
    by (simp add: ethNamesAddresses_def set_filterIndexed_unique Un_assoc)
  from 1 2 show ?thesis
    by (simp add: fetchEthNames_requests fetchEthNames_ok)
qed

theorem fetchEthNames_rebuild_witness:
  "ethNamesAddresses exampleState = [''0xB'', ''0xA'', ''0xC''] \<and>
   fetchEthNames okApi exampleState =
     ([Request (GetEthNames [''0xB'', ''0xA'', ''0xC''])],
      exampleState\<lparr> ethNames := [''0xA'' \<mapsto> ''alice.eth''] \<rparr>) \<and>
   ethNames (snd (fetchEthNames okApi exampleState)) ''0xC'' = None"
  using fetchEthNames_rebuild [of exampleState okApi]
  by (simp add: ethNamesAddresses_def exampleState_def okApi_def filterIndexed_unique_Cons
      filterIndexed_unique_Nil)

text \<open>
  C8, as stated, fails for \<^verbatim>\<open>fetchEnsNames\<close>: it merges the new addresses into the worklist
  before any request is sent, so the worklist has changed although the only backend call
  rejected.
\<close>

theorem fetchEnsNames_mutates_before_backend_counterexample:
  "getEnsNames failingApi [''0xA''] = Inl ''unreachable'' \<and>
   fetchEnsNames isValidExample failingApi [''0xA''] False initialState =
     ([Request (GetEnsNames [''0xA''])], Inl ''unreachable'',
      initialState\<lparr> ensAddresses := [''0xA''] \<rparr>) \<and>
   snd (snd (fetchEnsNames isValidExample failingApi [''0xA''] False initialState)) \<noteq> initialState"
  by (simp add: fetchEnsNames_def updateEnsAddresses_def Let_def failingApi_def
      initialState_def isValidExample_def filterIndexed_unique_Cons filterIndexed_unique_Nil)

text \<open>
  C8, amended. \<^verbatim>\<open>fetchEthNames\<close>, \<^verbatim>\<open>fetchEthAddressBook\<close> and the add, update and delete
  operations of the address book change the state only when the backend call succeeds. When
  \<^verbatim>\<open>getEthNames\<close> rejects, \<^verbatim>\<open>fetchEthNames\<close> logs the error, raises a notification with its
  message and leaves the state as it is. When \<^verbatim>\<open>getEthAddressBook\<close> rejects,
  \<^verbatim>\<open>fetchEthAddressBook\<close> logs, notifies, leaves the state as it is and sends no
  \<^verbatim>\<open>getEthNames\<close> request. When the backend mutation does not answer \<^verbatim>\<open>true\<close>, the add, update
  and delete operations send nothing after the mutation request and leave the state as it is.
\<close>

theorem state_kept_on_failure:
  "(getEthNames api (ethNamesAddresses s) = Inl e \<longrightarrow>
      fetchEthNames api s =
        ([Request (GetEthNames (ethNamesAddresses s)), LogError e,
          Notify ''eth_names.error.title'' e], s)) \<and>
   (getEthAddressBook api l a = Inl e \<longrightarrow>
      fetchEthAddressBook api l a s =
        ([Request (GetEthAddressBook l a), LogError e,
          Notify ''eth_address_book.actions.fetch.error.title'' e], s)) \<and>
   (addAddressBook api l es \<noteq> Inr True \<longrightarrow>
      fst (addEthAddressBook api l es s) = [Request (AddAddressBook l es)] \<and>
      snd (snd (addEthAddressBook api l es s)) = s) \<and>
   (updateAddressBook api l es \<noteq> Inr True \<longrightarrow>
      fst (updateEthAddressBook api l es s) = [Request (UpdateAddressBook l es)] \<and>
      snd (snd (updateEthAddressBook api l es s)) = s) \<and>
   (deleteAddressBook api l ds \<noteq> Inr True \<longrightarrow>
      fst (deleteEthAddressBook api l ds s) = [Request (DeleteAddressBook l ds)] \<and>
      snd (snd (deleteEthAddressBook api l ds s)) = s)"
proof -
  have 3: "fst (addEthAddressBook api l es s) = [Request (AddAddressBook l es)] \<and>
      snd (snd (addEthAddressBook api l es s)) = s" if "addAddressBook api l es \<noteq> Inr True"
    using that by (cases "addAddressBook api l es") (auto simp: addEthAddressBook_def)
  have 4: "fst (updateEthAddressBook api l es s) = [Request (UpdateAddressBook l es)] \<and>
      snd (snd (updateEthAddressBook api l es s)) = s" if "updateAddressBook api l es \<noteq> Inr True"
    using that by (cases "updateAddressBook api l es") (auto simp: updateEthAddressBook_def)
  have 5: "fst (deleteEthAddressBook api l ds s) = [Request (DeleteAddressBook l ds)] \<and>
      snd (snd (deleteEthAddressBook api l ds s)) = s" if "deleteAddressBook api l ds \<noteq> Inr True"
    using that by (cases "deleteAddressBook api l ds") (auto simp: deleteEthAddressBook_def)
  from 3 4 5 show ?thesis
    by (simp add: fetchEthNames_fail fetchEthAddressBook_fail)
qed

theorem state_kept_on_failure_witness:
  "fetchEthNames failingApi exampleState =
     ([Request (GetEthNames [''0xB'', ''0xA'', ''0xC'']), LogError ''unreachable'',
       Notify ''eth_names.error.title'' ''unreachable''], exampleState) \<and>
   fetchEthAddressBook failingApi Global None exampleState =
     ([Request (GetEthAddressBook Global None), LogError ''unreachable'',
       Notify ''eth_address_book.actions.fetch.error.title'' ''unreachable''], exampleState) \<and>
   addEthAddressBook failingApi Private [] exampleState =
     ([Request (AddAddressBook Private [])], Inr (), exampleState) \<and>
   snd (snd (updateEthAddressBook failingApi Private [] exampleState)) = exampleState \<and>
   snd (snd (deleteEthAddressBook failingApi Global [''0xB''] exampleState)) = exampleState"
  using state_kept_on_failure
    [of failingApi exampleState "''unreachable''" Global None "[]" "[''0xB'']"]
    state_kept_on_failure
    [of failingApi exampleState "''unreachable''" Private None "[]" "[''0xB'']"]
  by (simp add: failingApi_def ethNamesAddresses_def exampleState_def filterIndexed_unique_Cons
      filterIndexed_unique_Nil addEthAddressBook_def)


end
